theory Spec2Isabelle
  imports Main
begin

section \<open>The news PWA service worker (service-worker.js)\<close>

text \<open>
  The worker registers three handlers (install, activate, fetch) that call the
  platform's Cache Storage and fetch primitives. The handlers are embedded as
  functions over an explicit cache storage; the network is a function from
  requests to an optional response (\<open>None\<close>: the fetch promise rejects).
  A settled promise is a value of a sum type (\<open>Inl\<close>: rejected).
\<close>

subsection \<open>JavaScript string and array primitives\<close>

text \<open>\<^verbatim>\<open>s.startsWith(p)\<close>\<close>

definition js_startsWith :: "string \<Rightarrow> string \<Rightarrow> bool" where
  "js_startsWith s p = (take (length p) s = p)"

text \<open>\<^verbatim>\<open>s.includes(sub)\<close>: \<open>sub\<close> occurs in \<open>s\<close> at some position.\<close>

fun js_includes :: "string \<Rightarrow> string \<Rightarrow> bool" where
  "js_includes [] sub = (sub = [])"
| "js_includes (c # cs) sub = (js_startsWith (c # cs) sub \<or> js_includes cs sub)"

text \<open>
  \<^verbatim>\<open>s.replace(pat, rep)\<close> with a string pattern: only the first occurrence
  of \<open>pat\<close> is replaced, wherever it is; without an occurrence \<open>s\<close> is returned.
\<close>

fun js_replace :: "string \<Rightarrow> string \<Rightarrow> string \<Rightarrow> string" where
  "js_replace [] pat rep = (if pat = [] then rep else [])"
| "js_replace (c # cs) pat rep =
     (if js_startsWith (c # cs) pat then rep @ drop (length pat) (c # cs)
      else c # js_replace cs pat rep)"

text \<open>\<^verbatim>\<open>xs.indexOf(x)\<close>: the first index holding \<open>x\<close>, or \<open>-1\<close>.\<close>

fun indexOf_from :: "int \<Rightarrow> 'a list \<Rightarrow> 'a \<Rightarrow> int" where
  "indexOf_from i [] x = - 1"
| "indexOf_from i (y # ys) x = (if y = x then i else indexOf_from (i + 1) ys x)"

definition js_indexOf :: "'a list \<Rightarrow> 'a \<Rightarrow> int" where
  "js_indexOf xs x = indexOf_from 0 xs x"

text \<open>\<^verbatim>\<open>xs.some(p)\<close>\<close>

definition js_some :: "'a list \<Rightarrow> ('a \<Rightarrow> bool) \<Rightarrow> bool" where
  "js_some xs p = list_ex p xs"

subsection \<open>Requests, responses and URLs\<close>

text \<open>\<^verbatim>\<open>request.url\<close> and \<^verbatim>\<open>request.method\<close>\<close>

record request =
  url :: string
  http_method :: string

record response =
  status :: nat
  body :: string

text \<open>\<^verbatim>\<open>response.ok\<close>: the status is in the range 200 to 299.\<close>

definition ok :: "response \<Rightarrow> bool" where
  "ok r = (200 \<le> status r \<and> status r \<le> 299)"

text \<open>
  \<^verbatim>\<open>new URL(u).pathname\<close> for a serialized absolute URL, as \<^verbatim>\<open>request.url\<close>
  is: after the scheme and the authority, the path runs up to the query or the
  fragment. Under a special scheme an empty path is the root path \<^verbatim>\<open>/\<close>;
  under any other scheme it stays empty.
\<close>

definition special_scheme :: "string \<Rightarrow> bool" where
  "special_scheme s = (s \<in> set [''http'', ''https'', ''ws'', ''wss'', ''ftp'', ''file''])"

definition http_scheme :: "string \<Rightarrow> bool" where
  "http_scheme u = (js_startsWith u ''http://'' \<or> js_startsWith u ''https://'')"

definition path_end :: "char \<Rightarrow> bool" where
  "path_end c = (c = CHR ''?'' \<or> c = CHR ''#'')"

definition authority_end :: "char \<Rightarrow> bool" where
  "authority_end c = (c = CHR ''/'' \<or> path_end c)"

definition URL_pathname :: "string \<Rightarrow> string" where
  "URL_pathname u =
     (let scheme = takeWhile (\<lambda>c. c \<noteq> CHR '':'') u;
          rest = drop 1 (dropWhile (\<lambda>c. c \<noteq> CHR '':'') u) in
      if js_startsWith rest ''//''
      then (let p = takeWhile (\<lambda>c. \<not> path_end c)
                      (dropWhile (\<lambda>c. \<not> authority_end c) (drop 2 rest))
            in if p = [] \<and> special_scheme scheme then ''/'' else p)
      else takeWhile (\<lambda>c. \<not> path_end c) rest)"

subsection \<open>The Cache Storage API\<close>

text \<open>
  A cache maps the URL of a stored request (without its fragment) to the
  response stored for it; the cache storage lists the named caches in the
  order of their creation. Opening, listing, deleting and matching are taken
  not to fail; a write may fail where the handler does not wait for it.
\<close>

type_synonym cache = "(string \<times> response) list"
type_synonym cache_storage = "(string \<times> cache) list"

definition request_key :: "request \<Rightarrow> string" where
  "request_key req = takeWhile (\<lambda>c. c \<noteq> CHR ''#'') (url req)"

text \<open>\<^verbatim>\<open>cache.match(request)\<close>: only a GET request matches an entry.\<close>

definition cache_match :: "cache \<Rightarrow> request \<Rightarrow> response option" where
  "cache_match c req =
     (if http_method req = ''GET'' then map_of c (request_key req) else None)"

text \<open>\<^verbatim>\<open>caches.match(request)\<close>: the first match, the caches taken in order.\<close>

fun caches_match :: "cache_storage \<Rightarrow> request \<Rightarrow> response option" where
  "caches_match [] req = None"
| "caches_match ((name, c) # rest) req =
     (case cache_match c req of
        Some r \<Rightarrow> Some r
      | None \<Rightarrow> caches_match rest req)"

text \<open>\<^verbatim>\<open>caches.open(name)\<close> creates the cache when there is none of that name.\<close>

definition caches_open :: "string \<Rightarrow> cache_storage \<Rightarrow> cache_storage" where
  "caches_open name cs = (if map_of cs name = None then cs @ [(name, [])] else cs)"

definition caches_keys :: "cache_storage \<Rightarrow> string list" where
  "caches_keys cs = map fst cs"

definition caches_delete :: "string \<Rightarrow> cache_storage \<Rightarrow> cache_storage" where
  "caches_delete name cs = filter (\<lambda>(n, c). n \<noteq> name) cs"

datatype js_error = TypeError | InvalidStateError

text \<open>
  The write of one entry into the cache called \<open>name\<close>, as a batch of cache
  operations does it: the entry of the request is replaced.
\<close>

definition put_entry :: "request \<Rightarrow> response \<Rightarrow> cache \<Rightarrow> cache" where
  "put_entry req resp c =
     filter (\<lambda>(k, v). k \<noteq> request_key req) c @ [(request_key req, resp)]"

definition batch_put :: "string \<Rightarrow> request \<Rightarrow> response \<Rightarrow> cache_storage \<Rightarrow> cache_storage" where
  "batch_put name req resp cs =
     map (\<lambda>(n, c). if n = name then (n, put_entry req resp c) else (n, c)) cs"

text \<open>
  \<^verbatim>\<open>cache.put(request, response)\<close> rejects a request that is not a GET request
  or not under \<^verbatim>\<open>http\<close> or \<^verbatim>\<open>https\<close>, and a partial response (status 206);
  otherwise it writes the entry.
\<close>

definition cache_put ::
  "string \<Rightarrow> request \<Rightarrow> response \<Rightarrow> cache_storage \<Rightarrow> js_error + cache_storage" where
  "cache_put name req resp cs =
     (if http_method req \<noteq> ''GET'' \<or> \<not> http_scheme (url req) \<or> status resp = 206
      then Inl TypeError
      else Inr (batch_put name req resp cs))"

text \<open>
  \<^verbatim>\<open>cache.addAll(requests)\<close> takes GET requests under \<^verbatim>\<open>http\<close> or
  \<^verbatim>\<open>https\<close>, fetches every one of them and stores the responses only when
  every fetch has given a response with an ok status (206 apart) and no
  request is named twice; otherwise the promise rejects and the cache is left
  as it was.
\<close>

definition fetch_for_add :: "(request \<Rightarrow> response option) \<Rightarrow> request \<Rightarrow> response option" where
  "fetch_for_add net req =
     (case net req of
        None \<Rightarrow> None
      | Some r \<Rightarrow> if ok r \<and> status r \<noteq> 206 then Some r else None)"

definition cache_addAll ::
  "(request \<Rightarrow> response option) \<Rightarrow> string \<Rightarrow> request list \<Rightarrow> cache_storage
     \<Rightarrow> (js_error + unit) \<times> cache_storage" where
  "cache_addAll net name requests cs =
     (if \<not> list_all (\<lambda>req. http_method req = ''GET'' \<and> http_scheme (url req)) requests
      then (Inl TypeError, cs)
      else
        (case those (map (fetch_for_add net) requests) of
           None \<Rightarrow> (Inl TypeError, cs)
         | Some responses \<Rightarrow>
             if distinct (map request_key requests)
             then (Inr (),
                   fold (\<lambda>(req, resp). batch_put name req resp) (zip requests responses) cs)
             else (Inl InvalidStateError, cs)))"

subsection \<open>Configuration constants\<close>

record config =
  CACHE_VERSION :: string
  ASSETS_TO_CACHE :: "string list"

definition STATIC_CACHE :: "config \<Rightarrow> string" where
  "STATIC_CACHE cfg = CACHE_VERSION cfg @ ''-static-assets''"

definition NEWS_CACHE :: "config \<Rightarrow> string" where
  "NEWS_CACHE cfg = CACHE_VERSION cfg @ ''-dynamic-news''"

text \<open>The constants of the source file.\<close>

definition deployed :: config where
  "deployed =
     \<lparr>CACHE_VERSION = ''news-pwa-v1.0.0'',
      ASSETS_TO_CACHE = [''/'', ''/index.html'', ''https://cdn.tailwindcss.com'']\<rparr>"

subsection \<open>1. Install event\<close>

text \<open>
  \<^verbatim>\<open>addAll\<close> takes the entries of the asset list as URLs relative to the
  worker, which is served from the root of its origin \<open>base\<close>. An entry with a
  scheme is an absolute URL, an entry that begins with \<^verbatim>\<open>//\<close> takes the
  scheme of the origin, a path that begins with \<^verbatim>\<open>/\<close> is appended to the
  origin, and any other entry is a path below the root (dot segments are not
  resolved). A URL of a special scheme with an empty path is serialized with
  the root path, which comes before a query or a fragment.
\<close>

definition with_root_path :: "string \<Rightarrow> string" where
  "with_root_path u =
     (let scheme = takeWhile (\<lambda>c. c \<noteq> CHR '':'') u;
          rest = drop 1 (dropWhile (\<lambda>c. c \<noteq> CHR '':'') u);
          host = takeWhile (\<lambda>c. \<not> authority_end c) (drop 2 rest);
          after = dropWhile (\<lambda>c. \<not> authority_end c) (drop 2 rest)
      in if js_startsWith rest ''//'' \<and> special_scheme scheme \<and> \<not> js_startsWith after ''/''
         then scheme @ ''://'' @ host @ ''/'' @ after
         else u)"

definition has_scheme :: "string \<Rightarrow> bool" where
  "has_scheme asset =
     (CHR '':'' \<in> set asset \<and>
      takeWhile (\<lambda>c. c \<noteq> CHR '':'') asset \<noteq> [] \<and>
      list_all (\<lambda>c. \<not> authority_end c) (takeWhile (\<lambda>c. c \<noteq> CHR '':'') asset))"

definition asset_url :: "string \<Rightarrow> string \<Rightarrow> string" where
  "asset_url base asset =
     (if has_scheme asset then with_root_path asset
      else if js_startsWith asset ''//''
      then with_root_path (takeWhile (\<lambda>c. c \<noteq> CHR '':'') base @ '':'' @ asset)
      else if js_startsWith asset ''/'' then base @ asset
      else base @ ''/'' @ asset)"

definition asset_request :: "string \<Rightarrow> string \<Rightarrow> request" where
  "asset_request base asset = \<lparr>url = asset_url base asset, http_method = ''GET''\<rparr>"

text \<open>
  The handler opens the static cache, adds the asset list, turns a rejection
  of \<^verbatim>\<open>addAll\<close> into a resolved promise and then calls \<^verbatim>\<open>skipWaiting\<close>.
  The result is the settled promise given to \<^verbatim>\<open>event.waitUntil\<close> and the
  cache storage it leaves; \<^verbatim>\<open>skipWaiting\<close> does not touch the storage.
\<close>

definition install_handler ::
  "config \<Rightarrow> string \<Rightarrow> (request \<Rightarrow> response option) \<Rightarrow> cache_storage
     \<Rightarrow> (js_error + unit) \<times> cache_storage" where
  "install_handler cfg base net cs =
     (let opened = caches_open (STATIC_CACHE cfg) cs;
          (added, stored) =
             cache_addAll net (STATIC_CACHE cfg)
               (map (asset_request base) (ASSETS_TO_CACHE cfg)) opened;
          caught = (case added of Inl err \<Rightarrow> Inr () | Inr u \<Rightarrow> Inr u);
          skipped = (case caught of Inl err \<Rightarrow> Inl err | Inr u \<Rightarrow> Inr ())
      in (skipped, stored))"

subsection \<open>2. Activate event\<close>

definition cacheAllowList :: "config \<Rightarrow> string list" where
  "cacheAllowList cfg = [STATIC_CACHE cfg, NEWS_CACHE cfg]"

text \<open>
  Every name that \<^verbatim>\<open>caches.keys()\<close> lists and that \<^verbatim>\<open>indexOf\<close> does not find
  in the allow-list is deleted; the result is the storage once every deletion
  of \<^verbatim>\<open>Promise.all\<close> is done (\<^verbatim>\<open>clients.claim\<close> does not touch it).
\<close>

definition activate_step :: "config \<Rightarrow> string \<Rightarrow> cache_storage \<Rightarrow> cache_storage" where
  "activate_step cfg cacheName cs =
     (if js_indexOf (cacheAllowList cfg) cacheName = - 1
      then caches_delete cacheName cs else cs)"

definition activate_handler :: "config \<Rightarrow> cache_storage \<Rightarrow> cache_storage" where
  "activate_handler cfg cs = fold (activate_step cfg) (caches_keys cs) cs"

subsection \<open>3. Fetch event\<close>

text \<open>
  The branch of the handler that a request takes: the return of the scheme
  guard, or one of the three branches of the \<^verbatim>\<open>if\<close> chain.
\<close>

datatype strategy = Ignored | CacheFirst | NetworkFirst | NetworkOnly

text \<open>
  What the page gets: the handler did not call \<^verbatim>\<open>respondWith\<close> and the
  platform handles the request itself, or it responded with a promise that
  settles to a response or to no response.
\<close>

datatype outcome = NotIntercepted | RespondWith "response option"

text \<open>The calls of platform primitives that the handler makes, in their order.\<close>

datatype effect =
    CachesMatch request
  | Fetch request
  | CachesOpen string
  | CachePut string request response

record handled =
  outcome :: outcome
  strategy :: strategy
  caches :: cache_storage
  effects :: "effect list"

text \<open>
  The write of the network-first branch is not awaited: the platform may let
  \<^verbatim>\<open>caches.open\<close> or \<^verbatim>\<open>cache.put\<close> reject for reasons of its own (a quota,
  say); with \<open>WriteOk\<close> the write is what \<^verbatim>\<open>cache.put\<close> makes of its arguments.
\<close>

datatype write_outcome = WriteOk | OpenRejects | PutRejects

text \<open>Line 77: some entry of the asset list, its first \<^verbatim>\<open>/\<close> removed, occurs in the URL.\<close>

definition isStaticAsset :: "config \<Rightarrow> request \<Rightarrow> bool" where
  "isStaticAsset cfg req =
     js_some (ASSETS_TO_CACHE cfg)
       (\<lambda>asset. js_includes (url req) (js_replace asset ''/'' ''''))"

text \<open>
  Lines 81 to 92: the stored response, or else the fetched one. The
  \<^verbatim>\<open>catch\<close> handler logs and returns nothing, so after a failed fetch the
  promise given to \<^verbatim>\<open>respondWith\<close> settles with no response.
\<close>

definition cache_first ::
  "(request \<Rightarrow> response option) \<Rightarrow> cache_storage \<Rightarrow> request \<Rightarrow> handled" where
  "cache_first net cs req =
     (case caches_match cs req of
        Some response \<Rightarrow>
          \<lparr>outcome = RespondWith (Some response), strategy = CacheFirst,
           caches = cs, effects = [CachesMatch req]\<rparr>
      | None \<Rightarrow>
          (case net req of
             Some fetched \<Rightarrow>
               \<lparr>outcome = RespondWith (Some fetched), strategy = CacheFirst,
                caches = cs, effects = [CachesMatch req, Fetch req]\<rparr>
           | None \<Rightarrow>
               \<lparr>outcome = RespondWith None, strategy = CacheFirst,
                caches = cs, effects = [CachesMatch req, Fetch req]\<rparr>))"

text \<open>
  Lines 95 to 115: the fetched response is returned, and a clone of it is put
  into the dynamic-news cache when its status is ok; after a failed fetch the
  \<^verbatim>\<open>catch\<close> handler answers with \<^verbatim>\<open>caches.match\<close>.
\<close>

definition network_first ::
  "config \<Rightarrow> write_outcome \<Rightarrow> (request \<Rightarrow> response option) \<Rightarrow> cache_storage
     \<Rightarrow> request \<Rightarrow> handled" where
  "network_first cfg w net cs req =
     (case net req of
        Some response \<Rightarrow>
          (let responseClone = response in
           if ok response then
             (case w of
                OpenRejects \<Rightarrow>
                  \<lparr>outcome = RespondWith (Some response), strategy = NetworkFirst,
                   caches = cs, effects = [Fetch req, CachesOpen (NEWS_CACHE cfg)]\<rparr>
              | PutRejects \<Rightarrow>
                  \<lparr>outcome = RespondWith (Some response), strategy = NetworkFirst,
                   caches = caches_open (NEWS_CACHE cfg) cs,
                   effects = [Fetch req, CachesOpen (NEWS_CACHE cfg),
                              CachePut (NEWS_CACHE cfg) req responseClone]\<rparr>
              | WriteOk \<Rightarrow>
                  (case cache_put (NEWS_CACHE cfg) req responseClone
                          (caches_open (NEWS_CACHE cfg) cs) of
                     Inr written \<Rightarrow>
                       \<lparr>outcome = RespondWith (Some response), strategy = NetworkFirst,
                        caches = written,
                        effects = [Fetch req, CachesOpen (NEWS_CACHE cfg),
                                   CachePut (NEWS_CACHE cfg) req responseClone]\<rparr>
                   | Inl err \<Rightarrow>
                       \<lparr>outcome = RespondWith (Some response), strategy = NetworkFirst,
                        caches = caches_open (NEWS_CACHE cfg) cs,
                        effects = [Fetch req, CachesOpen (NEWS_CACHE cfg),
                                   CachePut (NEWS_CACHE cfg) req responseClone]\<rparr>))
           else
             \<lparr>outcome = RespondWith (Some response), strategy = NetworkFirst,
              caches = cs, effects = [Fetch req]\<rparr>)
      | None \<Rightarrow>
          \<lparr>outcome = RespondWith (caches_match cs req), strategy = NetworkFirst,
           caches = cs, effects = [Fetch req, CachesMatch req]\<rparr>)"

text \<open>
  Line 118: the worker fetches the request, and since \<^verbatim>\<open>respondWith\<close> is not
  called the platform handles the request itself.
\<close>

definition network_only ::
  "(request \<Rightarrow> response option) \<Rightarrow> cache_storage \<Rightarrow> request \<Rightarrow> handled" where
  "network_only net cs req =
     \<lparr>outcome = NotIntercepted, strategy = NetworkOnly, caches = cs, effects = [Fetch req]\<rparr>"

text \<open>Lines 70 to 120: the scheme guard, then the first branch whose condition holds.\<close>

definition fetch_handler ::
  "config \<Rightarrow> write_outcome \<Rightarrow> (request \<Rightarrow> response option) \<Rightarrow> cache_storage
     \<Rightarrow> request \<Rightarrow> handled" where
  "fetch_handler cfg w net cs req =
     (if js_startsWith (url req) ''chrome-extension://''
      then \<lparr>outcome = NotIntercepted, strategy = Ignored, caches = cs, effects = []\<rparr>
      else
        (let pathname = URL_pathname (url req)
         in if isStaticAsset cfg req \<or> pathname = ''/''
            then cache_first net cs req
            else if http_method req = ''GET'' \<and> js_startsWith pathname ''/api/news''
            then network_first cfg w net cs req
            else network_only net cs req))"

subsection \<open>The classes of the specification\<close>

text \<open>
  The static-asset class in the specification's words: the URL contains an
  entry of the asset list whose leading path separator is stripped, or the
  request targets the root path.
\<close>

definition strip_leading_separator :: "string \<Rightarrow> string" where
  "strip_leading_separator asset =
     (case asset of [] \<Rightarrow> [] | c # cs \<Rightarrow> if c = CHR ''/'' then cs else c # cs)"

text \<open>
  An entry that begins with the separator or has none: on such an entry the
  first separator is the leading one.
\<close>

definition leading_or_no_separator :: "string \<Rightarrow> bool" where
  "leading_or_no_separator asset = (js_startsWith asset ''/'' \<or> CHR ''/'' \<notin> set asset)"

definition spec_static_class :: "config \<Rightarrow> request \<Rightarrow> bool" where
  "spec_static_class cfg req =
     ((\<exists>asset \<in> set (ASSETS_TO_CACHE cfg).
         js_includes (url req) (strip_leading_separator asset))
      \<or> URL_pathname (url req) = ''/'')"

text \<open>
  A request is for an extension-internal resource when its URL has one of the
  schemes under which the browsers serve the files of an extension.
\<close>

definition spec_extension_internal :: "request \<Rightarrow> bool" where
  "spec_extension_internal req =
     (takeWhile (\<lambda>c. c \<noteq> CHR '':'') (url req)
        \<in> set [''chrome-extension'', ''moz-extension'', ''safari-web-extension''])"

text \<open>The dynamic-news condition: a GET request whose path begins with the API prefix.\<close>

definition dynamic_news_condition :: "request \<Rightarrow> bool" where
  "dynamic_news_condition req =
     (http_method req = ''GET'' \<and> js_startsWith (URL_pathname (url req)) ''/api/news'')"

subsection \<open>Example requests, networks and storages\<close>

definition news_get :: request where
  "news_get = \<lparr>url = ''https://example.com/api/news'', http_method = ''GET''\<rparr>"

definition news_post :: request where
  "news_post = \<lparr>url = ''https://example.com/api/news'', http_method = ''POST''\<rparr>"

definition shell_get :: request where
  "shell_get = \<lparr>url = ''https://example.com/index.html'', http_method = ''GET''\<rparr>"

definition news_shell_get :: request where
  "news_shell_get =
     \<lparr>url = ''https://example.com/api/news/index.html'', http_method = ''GET''\<rparr>"

definition cdn_script_get :: request where
  "cdn_script_get = \<lparr>url = ''https://cdn.tailwindcss.com/x.js'', http_method = ''GET''\<rparr>"

definition moz_extension_get :: request where
  "moz_extension_get = \<lparr>url = ''moz-extension://abcdef/popup.js'', http_method = ''GET''\<rparr>"

definition extension_get :: request where
  "extension_get = \<lparr>url = ''chrome-extension://abcdef/popup.js'', http_method = ''GET''\<rparr>"

definition news_item :: response where
  "news_item = \<lparr>status = 200, body = ''headlines''\<rparr>"

definition shell_page :: response where
  "shell_page = \<lparr>status = 200, body = ''shell''\<rparr>"

text \<open>A network that answers every request, one that fails every fetch.\<close>

definition online :: "request \<Rightarrow> response option" where
  "online req = Some news_item"

definition offline :: "request \<Rightarrow> response option" where
  "offline req = None"

text \<open>A network on which only the Tailwind CDN cannot be reached.\<close>

definition cdn_unreachable :: "request \<Rightarrow> response option" where
  "cdn_unreachable req =
     (if url req = ''https://cdn.tailwindcss.com/'' then None else Some shell_page)"

text \<open>The constants of the source file without the root entry of the asset list.\<close>

definition without_root_entry :: config where
  "without_root_entry =
     \<lparr>CACHE_VERSION = ''news-pwa-v1.0.0'',
      ASSETS_TO_CACHE = [''/index.html'', ''https://cdn.tailwindcss.com'']\<rparr>"

text \<open>An asset list of local paths only, as the comment in the source asks to add.\<close>

definition local_assets :: config where
  "local_assets =
     \<lparr>CACHE_VERSION = ''news-pwa-v1.0.0'',
      ASSETS_TO_CACHE = [''/index.html'', ''/css/app.css'']\<rparr>"

definition installed :: cache_storage where
  "installed =
     [(''news-pwa-v1.0.0-static-assets'', [(''https://example.com/index.html'', shell_page)])]"

definition previous_version :: config where
  "previous_version =
     \<lparr>CACHE_VERSION = ''news-pwa-v0.9.0'', ASSETS_TO_CACHE = [''/'', ''/index.html'']\<rparr>"

definition upgraded :: cache_storage where
  "upgraded =
     [(''news-pwa-v0.9.0-static-assets'', [(''https://example.com/'', shell_page)]),
      (''news-pwa-v0.9.0-dynamic-news'', []),
      (''news-pwa-v1.0.0-static-assets'', [(''https://example.com/index.html'', shell_page)]),
      (''news-pwa-v1.0.0-dynamic-news'', [(''https://example.com/api/news'', news_item)])]"

section \<open>Properties\<close>

subsection \<open>The string and array primitives\<close>

lemma js_startsWith_iff: "js_startsWith s p \<longleftrightarrow> (\<exists>ss. s = p @ ss)"
proof
  assume "js_startsWith s p"
  then have "s = p @ drop (length p) s"
    by (metis append_take_drop_id js_startsWith_def)
  then show "\<exists>ss. s = p @ ss" ..
next
  assume "\<exists>ss. s = p @ ss"
  then show "js_startsWith s p"
    by (auto simp: js_startsWith_def)
qed

text \<open>
  \<open>js_includes\<close> is the substring test: the pattern occurs between some prefix
  and some suffix.
\<close>

lemma js_includes_iff: "js_includes s sub \<longleftrightarrow> (\<exists>ps ss. s = ps @ sub @ ss)"
proof (induction s)
  case Nil
  show ?case by auto
next
  case (Cons c cs)
  show ?case
  proof
    assume "js_includes (c # cs) sub"
    then consider "js_startsWith (c # cs) sub" | "js_includes cs sub" by auto
    then show "\<exists>ps ss. c # cs = ps @ sub @ ss"
    proof cases
      case 1
      then obtain ss where "c # cs = sub @ ss" by (auto simp: js_startsWith_iff)
      then have "c # cs = [] @ sub @ ss" by simp
      then show ?thesis by blast
    next
      case 2
      with Cons.IH obtain ps ss where "cs = ps @ sub @ ss" by auto
      then have "c # cs = (c # ps) @ sub @ ss" by simp
      then show ?thesis by blast
    qed
  next
    assume "\<exists>ps ss. c # cs = ps @ sub @ ss"
    then obtain ps ss where split: "c # cs = ps @ sub @ ss" by auto
    show "js_includes (c # cs) sub"
    proof (cases ps)
      case Nil
      with split have "js_startsWith (c # cs) sub" by (auto simp: js_startsWith_iff)
      then show ?thesis by simp
    next
      case (Cons p ps')
      with split have "cs = ps' @ sub @ ss" by simp
      with Cons.IH have "js_includes cs sub" by auto
      then show ?thesis by simp
    qed
  qed
qed

lemma js_startsWith_Nil: "js_startsWith s []"
  by (simp add: js_startsWith_def)

lemma js_includes_Nil: "js_includes s []"
  by (cases s) (simp_all add: js_startsWith_Nil)

lemma js_replace_absent: "c \<notin> set s \<Longrightarrow> js_replace s [c] rep = s"
  by (induction s) (auto simp: js_startsWith_def)

text \<open>
  \<open>js_replace\<close> with a one-character pattern removes or replaces the first
  occurrence only.
\<close>

lemma js_replace_first: "c \<notin> set ps \<Longrightarrow> js_replace (ps @ c # ss) [c] rep = ps @ rep @ ss"
  by (induction ps) (auto simp: js_startsWith_def)

lemma js_replace_shortens: "c \<in> set s \<Longrightarrow> length (js_replace s [c] []) < length s"
proof -
  assume "c \<in> set s"
  then obtain ps ss where split: "s = ps @ c # ss" and first: "c \<notin> set ps"
    by (auto dest: split_list_first)
  from first have "js_replace (ps @ c # ss) [c] [] = ps @ [] @ ss"
    by (rule js_replace_first)
  with split show ?thesis by simp
qed

lemma js_replace_fixed_iff: "js_replace s [c] [] = s \<longleftrightarrow> c \<notin> set s"
proof
  assume fixed: "js_replace s [c] [] = s"
  show "c \<notin> set s"
  proof
    assume "c \<in> set s"
    then have "length (js_replace s [c] []) < length s" by (rule js_replace_shortens)
    with fixed show False by simp
  qed
next
  assume "c \<notin> set s"
  then show "js_replace s [c] [] = s" by (rule js_replace_absent)
qed

lemma replace_root_entry: "js_replace ''/'' ''/'' '''' = []"
  by (simp add: js_startsWith_def)

lemma strip_root_entry: "strip_leading_separator ''/'' = []"
  by (simp add: strip_leading_separator_def)

text \<open>
  On an absolute URL \<^verbatim>\<open>replace('/', '')\<close> removes the first separator of
  \<^verbatim>\<open>//\<close>, where stripping a leading separator changes nothing.
\<close>

lemma replace_is_not_leading_strip:
  "js_replace ''https://cdn.tailwindcss.com'' ''/'' '''' = ''https:/cdn.tailwindcss.com'' \<and>
   strip_leading_separator ''https://cdn.tailwindcss.com'' = ''https://cdn.tailwindcss.com''"
  by (simp add: js_startsWith_def strip_leading_separator_def)

text \<open>
  Removing the first separator is stripping the leading one exactly on an
  entry that begins with the separator or has none.
\<close>

lemma replace_is_strip_iff:
  "js_replace asset ''/'' '''' = strip_leading_separator asset \<longleftrightarrow>
     leading_or_no_separator asset"
proof (cases asset)
  case Nil
  then show ?thesis
    by (simp add: strip_leading_separator_def leading_or_no_separator_def)
next
  case (Cons c cs)
  show ?thesis
  proof (cases "c = CHR ''/''")
    case True
    with Cons show ?thesis
      by (simp add: strip_leading_separator_def leading_or_no_separator_def js_startsWith_def)
  next
    case False
    with Cons have "js_replace asset ''/'' '''' = c # js_replace cs ''/'' ''''"
      and "strip_leading_separator asset = c # cs"
      and "leading_or_no_separator asset \<longleftrightarrow> CHR ''/'' \<notin> set cs"
      by (simp_all add: strip_leading_separator_def leading_or_no_separator_def js_startsWith_def)
    then show ?thesis
      by (simp add: js_replace_fixed_iff)
  qed
qed

lemma indexOf_from_found: "x \<in> set xs \<Longrightarrow> 0 \<le> i \<Longrightarrow> 0 \<le> indexOf_from i xs x"
proof (induction xs arbitrary: i)
  case Nil
  then show ?case by simp
next
  case (Cons y ys)
  show ?case
  proof (cases "y = x")
    case True
    with Cons.prems show ?thesis by simp
  next
    case False
    with Cons.prems have "x \<in> set ys" and "0 \<le> i + 1" by simp_all
    then have "0 \<le> indexOf_from (i + 1) ys x" by (rule Cons.IH)
    with False show ?thesis by simp
  qed
qed

lemma indexOf_from_missing: "x \<notin> set xs \<Longrightarrow> indexOf_from i xs x = - 1"
  by (induction xs arbitrary: i) auto

lemma js_indexOf_missing_iff: "js_indexOf xs x = - 1 \<longleftrightarrow> x \<notin> set xs"
proof
  assume "js_indexOf xs x = - 1"
  show "x \<notin> set xs"
  proof
    assume "x \<in> set xs"
    then have "0 \<le> indexOf_from 0 xs x" by (rule indexOf_from_found) simp
    with \<open>js_indexOf xs x = - 1\<close> show False by (simp add: js_indexOf_def)
  qed
next
  assume "x \<notin> set xs"
  then show "js_indexOf xs x = - 1"
    by (simp add: js_indexOf_def indexOf_from_missing)
qed

subsection \<open>The root entry of the asset list\<close>

lemma root_entry_deployed: "''/'' \<in> set (ASSETS_TO_CACHE deployed)"
  by (simp add: deployed_def)

text \<open>
  An asset list with the entry \<^verbatim>\<open>/\<close> makes \<open>isStaticAsset\<close> hold for every
  request, since every URL includes the empty string.
\<close>

lemma isStaticAsset_root_entry:
  assumes "''/'' \<in> set (ASSETS_TO_CACHE cfg)"
  shows "isStaticAsset cfg req"
proof -
  have "js_includes (url req) (js_replace ''/'' ''/'' '''')"
    by (simp only: replace_root_entry js_includes_Nil)
  with assms show ?thesis
    unfolding isStaticAsset_def js_some_def list_ex_iff by blast
qed

lemma isStaticAsset_deployed: "isStaticAsset deployed req"
  by (rule isStaticAsset_root_entry) (rule root_entry_deployed)

lemma spec_static_class_root_entry:
  assumes "''/'' \<in> set (ASSETS_TO_CACHE cfg)"
  shows "spec_static_class cfg req"
proof -
  have "js_includes (url req) (strip_leading_separator ''/'')"
    by (simp only: strip_root_entry js_includes_Nil)
  with assms show ?thesis
    unfolding spec_static_class_def by blast
qed

lemma spec_static_class_deployed: "spec_static_class deployed req"
  by (rule spec_static_class_root_entry) (rule root_entry_deployed)

lemma strategy_cache_first: "strategy (cache_first net cs req) = CacheFirst"
  by (simp add: cache_first_def split: option.split)

lemma fetch_handler_root_entry:
  assumes "''/'' \<in> set (ASSETS_TO_CACHE cfg)"
  shows "fetch_handler cfg w net cs req =
           (if js_startsWith (url req) ''chrome-extension://''
            then \<lparr>outcome = NotIntercepted, strategy = Ignored, caches = cs, effects = []\<rparr>
            else cache_first net cs req)"
  using isStaticAsset_root_entry [OF assms, of req]
  by (simp add: fetch_handler_def)

lemma fetch_handler_deployed:
  "fetch_handler deployed w net cs req =
     (if js_startsWith (url req) ''chrome-extension://''
      then \<lparr>outcome = NotIntercepted, strategy = Ignored, caches = cs, effects = []\<rparr>
      else cache_first net cs req)"
  by (rule fetch_handler_root_entry) (rule root_entry_deployed)

lemma news_get_not_extension: "\<not> js_startsWith (url news_get) ''chrome-extension://''"
  by (simp add: news_get_def js_startsWith_def)

lemma news_get_dynamic: "dynamic_news_condition news_get"
  by code_simp

text \<open>
  Claim C9. The asset list contains the root entry \<^verbatim>\<open>/\<close>, which
  \<^verbatim>\<open>replace('/', '')\<close> turns into the empty string, so \<open>isStaticAsset\<close>
  holds for every request: a request that passes the scheme guard takes the
  cache-first branch, and no request takes the network-first or the
  network-only branch.
\<close>

theorem root_entry_makes_every_request_static:
  "''/'' \<in> set (ASSETS_TO_CACHE deployed) \<and> js_replace ''/'' ''/'' '''' = [] \<and>
   isStaticAsset deployed req \<and>
   (\<not> js_startsWith (url req) ''chrome-extension://'' \<longrightarrow>
      strategy (fetch_handler deployed w net cs req) = CacheFirst) \<and>
   strategy (fetch_handler deployed w net cs req) \<noteq> NetworkFirst \<and>
   strategy (fetch_handler deployed w net cs req) \<noteq> NetworkOnly"
proof (intro conjI)
  show "''/'' \<in> set (ASSETS_TO_CACHE deployed)"
    by (rule root_entry_deployed)
  show "js_replace ''/'' ''/'' '''' = []"
    by (rule replace_root_entry)
  show "isStaticAsset deployed req"
    by (rule isStaticAsset_deployed)
qed (simp_all add: fetch_handler_deployed strategy_cache_first)

text \<open>
  A GET request to the API prefix is handled cache-first.
\<close>

theorem root_entry_makes_every_request_static_witness:
  "\<not> js_startsWith (url news_get) ''chrome-extension://'' \<and>
   isStaticAsset deployed news_get \<and>
   strategy (fetch_handler deployed WriteOk online [] news_get) = CacheFirst"
  using root_entry_makes_every_request_static [of news_get WriteOk online "[]"]
    news_get_not_extension
  by blast

subsection \<open>Classification of requests\<close>

lemma isStaticAsset_iff:
  "isStaticAsset cfg req \<longleftrightarrow>
     (\<exists>asset \<in> set (ASSETS_TO_CACHE cfg). js_includes (url req) (js_replace asset ''/'' ''''))"
  by (simp add: isStaticAsset_def js_some_def list_ex_iff)

lemma static_condition_is_spec_class:
  assumes "''/'' \<in> set (ASSETS_TO_CACHE cfg) \<or>
           list_all leading_or_no_separator (ASSETS_TO_CACHE cfg)"
  shows "(isStaticAsset cfg req \<or> URL_pathname (url req) = ''/'') \<longleftrightarrow> spec_static_class cfg req"
  using assms
proof
  assume "''/'' \<in> set (ASSETS_TO_CACHE cfg)"
  then show ?thesis
    by (simp add: isStaticAsset_root_entry spec_static_class_root_entry)
next
  assume "list_all leading_or_no_separator (ASSETS_TO_CACHE cfg)"
  then have "js_replace asset ''/'' '''' = strip_leading_separator asset"
    if "asset \<in> set (ASSETS_TO_CACHE cfg)" for asset
    using that by (simp add: list_all_iff replace_is_strip_iff)
  then show ?thesis
    unfolding isStaticAsset_iff spec_static_class_def by auto
qed

lemma strategy_network_first: "strategy (network_first cfg w net cs req) = NetworkFirst"
  by (simp add: network_first_def split: option.split write_outcome.split sum.split)

lemma strategy_network_only: "strategy (network_only net cs req) = NetworkOnly"
  by (simp add: network_only_def)

lemma strategy_fetch_handler:
  "strategy (fetch_handler cfg w net cs req) =
     (if js_startsWith (url req) ''chrome-extension://'' then Ignored
      else if isStaticAsset cfg req \<or> URL_pathname (url req) = ''/'' then CacheFirst
      else if dynamic_news_condition req then NetworkFirst
      else NetworkOnly)"
  by (simp add: fetch_handler_def dynamic_news_condition_def strategy_cache_first
        strategy_network_first strategy_network_only)

text \<open>
  Claim C1. The code removes the first separator of an entry; that is the
  stripping of its leading separator exactly on an entry that begins with the
  separator or has none. For every asset list that holds the root entry, as
  the list of the source does, or holds only such entries, the condition of
  the cache-first branch (\<open>isStaticAsset\<close> or a root path) holds exactly when
  the URL contains an entry of the list with its leading path separator
  stripped or the path is the root path; a request that passes the scheme
  guard is handled cache-first exactly in that case; and a request in the
  static-asset class never takes the network-first branch, also when it is a
  GET request to the API prefix.
\<close>

theorem static_class_as_specified:
  "(js_replace asset ''/'' '''' = strip_leading_separator asset \<longleftrightarrow>
      leading_or_no_separator asset) \<and>
   ''/'' \<in> set (ASSETS_TO_CACHE deployed) \<and>
   (''/'' \<in> set (ASSETS_TO_CACHE cfg) \<or>
    list_all leading_or_no_separator (ASSETS_TO_CACHE cfg) \<longrightarrow>
      ((isStaticAsset cfg req \<or> URL_pathname (url req) = ''/'') \<longleftrightarrow>
         spec_static_class cfg req) \<and>
      (\<not> js_startsWith (url req) ''chrome-extension://'' \<longrightarrow>
         (strategy (fetch_handler cfg w net cs req) = CacheFirst \<longleftrightarrow>
            spec_static_class cfg req)) \<and>
      (spec_static_class cfg req \<and> dynamic_news_condition req \<longrightarrow>
         strategy (fetch_handler cfg w net cs req) \<noteq> NetworkFirst))"
proof (intro conjI impI)
  show "js_replace asset ''/'' '''' = strip_leading_separator asset \<longleftrightarrow>
          leading_or_no_separator asset"
    by (rule replace_is_strip_iff)
next
  show "''/'' \<in> set (ASSETS_TO_CACHE deployed)"
    by (rule root_entry_deployed)
next
  assume "''/'' \<in> set (ASSETS_TO_CACHE cfg) \<or>
          list_all leading_or_no_separator (ASSETS_TO_CACHE cfg)"
  then show "(isStaticAsset cfg req \<or> URL_pathname (url req) = ''/'') \<longleftrightarrow>
               spec_static_class cfg req"
    by (rule static_condition_is_spec_class)
next
  assume "''/'' \<in> set (ASSETS_TO_CACHE cfg) \<or>
          list_all leading_or_no_separator (ASSETS_TO_CACHE cfg)"
  then have same: "(isStaticAsset cfg req \<or> URL_pathname (url req) = ''/'') \<longleftrightarrow>
                     spec_static_class cfg req"
    by (rule static_condition_is_spec_class)
  assume "\<not> js_startsWith (url req) ''chrome-extension://''"
  with same show "strategy (fetch_handler cfg w net cs req) = CacheFirst \<longleftrightarrow>
                    spec_static_class cfg req"
    by (auto simp: strategy_fetch_handler)
next
  assume "''/'' \<in> set (ASSETS_TO_CACHE cfg) \<or>
          list_all leading_or_no_separator (ASSETS_TO_CACHE cfg)"
  then have same: "(isStaticAsset cfg req \<or> URL_pathname (url req) = ''/'') \<longleftrightarrow>
                     spec_static_class cfg req"
    by (rule static_condition_is_spec_class)
  assume "spec_static_class cfg req \<and> dynamic_news_condition req"
  with same show "strategy (fetch_handler cfg w net cs req) \<noteq> NetworkFirst"
    by (auto simp: strategy_fetch_handler)
qed

lemma local_assets_lead: "list_all leading_or_no_separator (ASSETS_TO_CACHE local_assets)"
  by code_simp

lemma news_shell_get_both:
  "\<not> js_startsWith (url news_shell_get) ''chrome-extension://'' \<and>
   spec_static_class local_assets news_shell_get \<and> dynamic_news_condition news_shell_get"
  by code_simp

lemma news_get_not_local_asset: "\<not> spec_static_class local_assets news_get"
  by code_simp

text \<open>
  With an asset list of local paths, \<open>GET https://example.com/api/news/index.html\<close>
  contains the entry \<^verbatim>\<open>/index.html\<close> without its leading separator and is a
  GET request to the API prefix: it is handled cache-first. The request
  \<open>GET https://example.com/api/news\<close> contains no entry and is not.
\<close>

theorem static_class_as_specified_witness:
  "list_all leading_or_no_separator (ASSETS_TO_CACHE local_assets) \<and>
   \<not> js_startsWith (url news_shell_get) ''chrome-extension://'' \<and>
   spec_static_class local_assets news_shell_get \<and> dynamic_news_condition news_shell_get \<and>
   strategy (fetch_handler local_assets WriteOk online [] news_shell_get) = CacheFirst \<and>
   strategy (fetch_handler local_assets WriteOk online [] news_shell_get) \<noteq> NetworkFirst \<and>
   \<not> js_startsWith (url news_get) ''chrome-extension://'' \<and>
   \<not> spec_static_class local_assets news_get \<and>
   strategy (fetch_handler local_assets WriteOk online [] news_get) \<noteq> CacheFirst"
  using static_class_as_specified
          [of "''/index.html''" local_assets news_shell_get WriteOk online "[]"]
        static_class_as_specified
          [of "''/index.html''" local_assets news_get WriteOk online "[]"]
    local_assets_lead news_shell_get_both news_get_not_local_asset news_get_not_extension
  by simp

text \<open>
  Where the wording and the code part: without the root entry, a script of the
  CDN contains the CDN entry as it is written, but not the entry without its
  first separator, and the request is not handled cache-first.
\<close>

lemma wording_differs_on_cdn_entry:
  "spec_static_class without_root_entry cdn_script_get \<and>
   \<not> (isStaticAsset without_root_entry cdn_script_get \<or>
        URL_pathname (url cdn_script_get) = ''/'') \<and>
   strategy (fetch_handler without_root_entry WriteOk online [] cdn_script_get) = NetworkOnly"
  by code_simp

subsection \<open>The scheme guard\<close>

lemma chrome_extension_is_internal:
  "js_startsWith (url req) ''chrome-extension://'' \<Longrightarrow> spec_extension_internal req"
proof -
  assume "js_startsWith (url req) ''chrome-extension://''"
  then obtain rest where "url req = ''chrome-extension://'' @ rest"
    by (auto simp: js_startsWith_iff)
  then show ?thesis
    by (simp add: spec_extension_internal_def)
qed

text \<open>
  Claim C8, for the scheme that the guard tests. A request whose URL begins
  with \<^verbatim>\<open>chrome-extension://\<close> is for an extension-internal resource and is
  not responded to: the handler returns with no effect at all (no lookup, no
  write, no fetch), with the storage unchanged and neither strategy applied.
\<close>

theorem extension_request_left_alone:
  assumes "js_startsWith (url req) ''chrome-extension://''"
  shows "spec_extension_internal req \<and>
         fetch_handler cfg w net cs req =
           \<lparr>outcome = NotIntercepted, strategy = Ignored, caches = cs, effects = []\<rparr>"
  using assms by (simp add: fetch_handler_def chrome_extension_is_internal)

lemma extension_get_scheme: "js_startsWith (url extension_get) ''chrome-extension://''"
  by (simp add: extension_get_def js_startsWith_def)

text \<open>
  An extension script is left to the platform.
\<close>

theorem extension_request_left_alone_witness:
  "js_startsWith (url extension_get) ''chrome-extension://'' \<and>
   spec_extension_internal extension_get \<and>
   fetch_handler deployed WriteOk online installed extension_get =
     \<lparr>outcome = NotIntercepted, strategy = Ignored, caches = installed, effects = []\<rparr>"
  using extension_request_left_alone [of extension_get deployed WriteOk online installed]
    extension_get_scheme
  by simp

text \<open>
  Claim C8 as it is stated, at a request under another extension scheme:
  \<open>GET moz-extension://abcdef/popup.js\<close> is for an extension-internal resource,
  passes the guard, is looked up in the storage and is answered cache-first.
\<close>

theorem other_extension_scheme_is_looked_up:
  "spec_extension_internal moz_extension_get \<and>
   fetch_handler deployed WriteOk online [] moz_extension_get =
     \<lparr>outcome = RespondWith (Some news_item), strategy = CacheFirst, caches = [],
      effects = [CachesMatch moz_extension_get, Fetch moz_extension_get]\<rparr>"
  by code_simp

subsection \<open>The cache-first branch\<close>

lemma shell_get_not_extension: "\<not> js_startsWith (url shell_get) ''chrome-extension://''"
  by (simp add: shell_get_def js_startsWith_def)

lemma shell_get_stored: "caches_match installed shell_get = Some shell_page"
  by (simp add: installed_def shell_get_def cache_match_def request_key_def)

lemma shell_get_not_stored: "caches_match [] shell_get = None"
  by simp

text \<open>
  Claim C6. A request in the static-asset class for which \<^verbatim>\<open>caches.match\<close>
  finds a stored entry is answered with that entry as it is stored; the only
  effect is the lookup, so no network fetch happens and the storage is unchanged.
\<close>

theorem cache_first_returns_stored_entry:
  assumes "\<not> js_startsWith (url req) ''chrome-extension://''"
    and "isStaticAsset cfg req \<or> URL_pathname (url req) = ''/''"
    and "caches_match cs req = Some stored"
  shows "fetch_handler cfg w net cs req =
           \<lparr>outcome = RespondWith (Some stored), strategy = CacheFirst,
            caches = cs, effects = [CachesMatch req]\<rparr>
         \<and> Fetch req \<notin> set (effects (fetch_handler cfg w net cs req))"
proof -
  from assms(1,2) have "fetch_handler cfg w net cs req = cache_first net cs req"
    by (simp add: fetch_handler_def)
  with assms(3) show ?thesis
    by (simp add: cache_first_def)
qed

text \<open>
  The shell document is served from the static cache while the network is down.
\<close>

theorem cache_first_returns_stored_entry_witness:
  "\<not> js_startsWith (url shell_get) ''chrome-extension://'' \<and>
   isStaticAsset deployed shell_get \<and>
   caches_match installed shell_get = Some shell_page \<and>
   fetch_handler deployed WriteOk offline installed shell_get =
     \<lparr>outcome = RespondWith (Some shell_page), strategy = CacheFirst,
      caches = installed, effects = [CachesMatch shell_get]\<rparr>"
  using cache_first_returns_stored_entry
          [of shell_get deployed installed shell_page WriteOk offline]
    shell_get_not_extension isStaticAsset_deployed [of shell_get] shell_get_stored
  by simp

text \<open>
  Claim C7. A request in the static-asset class without a stored entry is
  fetched from the network after the lookup, the result of the fetch is what
  the page gets (no response when the fetch fails), and the storage is
  unchanged: nothing is written.
\<close>

theorem cache_first_miss_fetches_without_storing:
  assumes "\<not> js_startsWith (url req) ''chrome-extension://''"
    and "isStaticAsset cfg req \<or> URL_pathname (url req) = ''/''"
    and "caches_match cs req = None"
  shows "fetch_handler cfg w net cs req =
           \<lparr>outcome = RespondWith (net req), strategy = CacheFirst,
            caches = cs, effects = [CachesMatch req, Fetch req]\<rparr>"
proof -
  from assms(1,2) have "fetch_handler cfg w net cs req = cache_first net cs req"
    by (simp add: fetch_handler_def)
  with assms(3) show ?thesis
    by (cases "net req") (simp_all add: cache_first_def)
qed

text \<open>
  With an empty storage the shell document comes from the network and the
  storage stays empty.
\<close>

theorem cache_first_miss_fetches_without_storing_witness:
  "\<not> js_startsWith (url shell_get) ''chrome-extension://'' \<and>
   isStaticAsset deployed shell_get \<and>
   caches_match [] shell_get = None \<and>
   fetch_handler deployed WriteOk online [] shell_get =
     \<lparr>outcome = RespondWith (Some news_item), strategy = CacheFirst,
      caches = [], effects = [CachesMatch shell_get, Fetch shell_get]\<rparr>"
  using cache_first_miss_fetches_without_storing [of shell_get deployed "[]" WriteOk online]
    shell_get_not_extension isStaticAsset_deployed [of shell_get] shell_get_not_stored
  by (simp add: online_def)

subsection \<open>The network-first branch\<close>

text \<open>
  Claim C10. In the network-first branch the response delivered does not
  depend on what becomes of the write: whether \<^verbatim>\<open>caches.open\<close> or
  \<^verbatim>\<open>cache.put\<close> rejects or both succeed, the outcome is the same, and when
  the fetch gave a response the outcome is that response.
\<close>

theorem network_first_response_ignores_write:
  "outcome (network_first cfg w net cs req) = outcome (network_first cfg w' net cs req) \<and>
   (net req = Some response \<longrightarrow>
      outcome (network_first cfg w net cs req) = RespondWith (Some response))"
proof (cases "net req")
  case None
  then show ?thesis
    by (simp add: network_first_def)
next
  case (Some fetched)
  have "outcome (network_first cfg v net cs req) = RespondWith (Some fetched)" for v
    using Some by (cases v) (simp_all add: network_first_def split: sum.split)
  with Some show ?thesis
    by simp
qed

lemma online_news_get: "online news_get = Some news_item"
  by (simp add: online_def)

text \<open>
  The news response is delivered although \<^verbatim>\<open>cache.put\<close> rejects.
\<close>

theorem network_first_response_ignores_write_witness:
  "online news_get = Some news_item \<and>
   outcome (network_first deployed PutRejects online [] news_get) = RespondWith (Some news_item) \<and>
   outcome (network_first deployed PutRejects online [] news_get) =
     outcome (network_first deployed WriteOk online [] news_get)"
  using network_first_response_ignores_write
          [of deployed PutRejects online "[]" news_get WriteOk news_item]
    online_news_get
  by auto

lemma map_of_filter_other: "map_of (filter (\<lambda>(k, v). k \<noteq> key) c) key = None"
  by (induction c) auto

lemma cache_match_put_entry:
  assumes "http_method req = ''GET''"
  shows "cache_match (put_entry req resp c) req = Some resp"
  using assms
  by (simp add: cache_match_def put_entry_def map_add_def map_of_filter_other)

lemma caches_match_batch_put:
  assumes "http_method req = ''GET''" and "caches_match cs req = None" and "name \<in> fst ` set cs"
  shows "caches_match (batch_put name req resp cs) req = Some resp"
  using assms(2,3)
proof (induction cs)
  case Nil
  then show ?case by simp
next
  case (Cons entry cs)
  obtain n c where entry: "entry = (n, c)" by (cases entry)
  from Cons.prems(1) entry have miss: "cache_match c req = None" and rest: "caches_match cs req = None"
    by (simp_all split: option.splits)
  show ?case
  proof (cases "n = name")
    case True
    with entry show ?thesis
      by (simp add: batch_put_def cache_match_put_entry [OF assms(1)])
  next
    case False
    with Cons.prems(2) entry have "name \<in> fst ` set cs" by auto
    with rest have "caches_match (batch_put name req resp cs) req = Some resp"
      by (rule Cons.IH)
    with False entry miss show ?thesis
      by (simp add: batch_put_def)
  qed
qed

lemma caches_match_append_empty:
  "caches_match (cs @ [(name, [])]) req = caches_match cs req"
  by (induction cs) (auto simp: cache_match_def split: option.splits)

lemma caches_open_has_name: "name \<in> fst ` set (caches_open name cs)"
  by (auto simp: caches_open_def map_of_eq_None_iff)

lemma caches_match_caches_open: "caches_match (caches_open name cs) req = caches_match cs req"
  by (simp add: caches_open_def caches_match_append_empty)

text \<open>
  The network-first branch itself does what its comments say: an ok response
  to a GET request is stored (when the write succeeds), and the lookup of the
  same request then finds it.
\<close>

lemma network_first_stores_ok_response:
  assumes "http_method req = ''GET''" and "http_scheme (url req)"
    and "net req = Some response" and "ok response" and "status response \<noteq> 206"
    and "caches_match cs req = None"
  shows "caches_match (caches (network_first cfg WriteOk net cs req)) req = Some response"
proof -
  have "caches_match (caches_open (NEWS_CACHE cfg) cs) req = None"
    using assms(6) by (simp add: caches_match_caches_open)
  then have "caches_match (batch_put (NEWS_CACHE cfg) req response
                              (caches_open (NEWS_CACHE cfg) cs)) req = Some response"
    using assms(1) caches_open_has_name by (intro caches_match_batch_put)
  with assms(1-5) show ?thesis
    by (simp add: network_first_def cache_put_def)
qed

text \<open>
  A partial response (status 206) is ok, but \<^verbatim>\<open>cache.put\<close> rejects it: it is
  returned and not stored.
\<close>

lemma network_first_partial_response_not_stored:
  assumes "net req = Some response" and "status response = 206"
  shows "caches (network_first cfg WriteOk net cs req) = caches_open (NEWS_CACHE cfg) cs"
  using assms by (simp add: network_first_def cache_put_def ok_def)

text \<open>
  When the fetch fails the network-first branch answers from the storage.
\<close>

lemma network_first_offline_fallback:
  assumes "net req = None"
  shows "outcome (network_first cfg w net cs req) = RespondWith (caches_match cs req)"
  using assms by (simp add: network_first_def)

text \<open>
  A response whose status is not ok is returned and not stored.
\<close>

lemma network_first_keeps_failed_response_out:
  assumes "net req = Some response" and "\<not> ok response"
  shows "network_first cfg w net cs req =
           \<lparr>outcome = RespondWith (Some response), strategy = NetworkFirst,
            caches = cs, effects = [Fetch req]\<rparr>"
  using assms by (simp add: network_first_def)

subsection \<open>Requests to the API namespace\<close>

lemma news_post_condition:
  "http_method news_post \<noteq> ''GET'' \<and> js_startsWith (URL_pathname (url news_post)) ''/api/news''"
  by code_simp

lemma news_post_not_extension: "\<not> js_startsWith (url news_post) ''chrome-extension://''"
  by (simp add: news_post_def js_startsWith_def)

text \<open>
  Claim C2, evaluated on \<open>POST https://example.com/api/news\<close>. The request is
  not a GET request and its path begins with the API prefix, yet the handler
  takes the cache-first branch: it looks the request up in the storage and
  responds itself instead of leaving the request to the network-only branch.
\<close>

theorem non_get_api_request_looks_up_store:
  "http_method news_post \<noteq> ''GET'' \<and> js_startsWith (URL_pathname (url news_post)) ''/api/news'' \<and>
   fetch_handler deployed WriteOk online [] news_post =
     \<lparr>outcome = RespondWith (Some news_item), strategy = CacheFirst,
      caches = [], effects = [CachesMatch news_post, Fetch news_post]\<rparr>"
  using news_post_condition news_post_not_extension
  by (simp add: fetch_handler_deployed cache_first_def online_def)

text \<open>
  Claim C3, evaluated on \<open>GET https://example.com/api/news\<close>. The network
  answers with a status-200 response, which is delivered, but the handler has
  taken the cache-first branch and stores nothing; the same request issued
  when the network is down gets no response.
\<close>

theorem news_response_is_not_stored:
  "dynamic_news_condition news_get \<and> online news_get = Some news_item \<and> ok news_item \<and>
   caches (fetch_handler deployed WriteOk online [] news_get) = [] \<and>
   outcome (fetch_handler deployed WriteOk online [] news_get) = RespondWith (Some news_item) \<and>
   outcome (fetch_handler deployed WriteOk offline
              (caches (fetch_handler deployed WriteOk online [] news_get)) news_get) =
     RespondWith None"
  using news_get_dynamic news_get_not_extension
  by (simp add: fetch_handler_deployed cache_first_def online_def offline_def
        news_item_def ok_def)

text \<open>
  Without the root entry in the asset list the other two branches are reached:
  a POST request to the API prefix is left to the network with no lookup, and
  a GET request is fetched, stored in the dynamic-news cache and served from
  it when the network is down.
\<close>

lemma without_root_entry_post:
  "fetch_handler without_root_entry WriteOk online [] news_post =
     \<lparr>outcome = NotIntercepted, strategy = NetworkOnly, caches = [],
      effects = [Fetch news_post]\<rparr>"
  by code_simp

lemma without_root_entry_get:
  "caches (fetch_handler without_root_entry WriteOk online [] news_get) =
     [(''news-pwa-v1.0.0-dynamic-news'', [(''https://example.com/api/news'', news_item)])] \<and>
   outcome (fetch_handler without_root_entry WriteOk offline
              (caches (fetch_handler without_root_entry WriteOk online [] news_get)) news_get) =
     RespondWith (Some news_item)"
  by code_simp

subsection \<open>Activation\<close>

lemma activate_step_filter:
  "activate_step cfg name cs =
     filter (\<lambda>(n, c). n \<in> set (cacheAllowList cfg) \<or> n \<noteq> name) cs"
proof (cases "name \<in> set (cacheAllowList cfg)")
  case True
  then have "filter (\<lambda>(n, c). n \<in> set (cacheAllowList cfg) \<or> n \<noteq> name) cs = cs"
    by (intro filter_True) auto
  with True show ?thesis
    by (simp add: activate_step_def js_indexOf_missing_iff)
next
  case False
  then have "filter (\<lambda>(n, c). n \<in> set (cacheAllowList cfg) \<or> n \<noteq> name) cs =
               filter (\<lambda>(n, c). n \<noteq> name) cs"
    by (intro filter_cong) auto
  with False show ?thesis
    by (simp add: activate_step_def js_indexOf_missing_iff caches_delete_def)
qed

lemma fold_activate_step:
  "fold (activate_step cfg) names cs =
     filter (\<lambda>(n, c). n \<in> set (cacheAllowList cfg) \<or> n \<notin> set names) cs"
proof (induction names arbitrary: cs)
  case Nil
  show ?case by simp
next
  case (Cons name names)
  have "fold (activate_step cfg) (name # names) cs =
          fold (activate_step cfg) names (activate_step cfg name cs)"
    by simp
  also have "\<dots> = filter (\<lambda>(n, c). n \<in> set (cacheAllowList cfg) \<or> n \<notin> set names)
                      (activate_step cfg name cs)"
    by (rule Cons.IH)
  also have "\<dots> = filter (\<lambda>(n, c). n \<in> set (cacheAllowList cfg) \<or> n \<notin> set (name # names)) cs"
    unfolding activate_step_filter filter_filter
    by (rule filter_cong) auto
  finally show ?case .
qed

text \<open>
  The deletions of the activate handler amount to filtering the storage by
  the allow-list.
\<close>

lemma activate_handler_filter:
  "activate_handler cfg cs = filter (\<lambda>(n, c). n \<in> set (cacheAllowList cfg)) cs"
  unfolding activate_handler_def fold_activate_step caches_keys_def
  by (rule filter_cong) force+

lemma static_news_distinct: "v1 @ ''-static-assets'' \<noteq> v2 @ ''-dynamic-news''"
proof
  assume eq: "v1 @ ''-static-assets'' = v2 @ ''-dynamic-news''"
  have "last (butlast (v1 @ ''-static-assets'')) = CHR ''t''"
    by (simp add: butlast_append)
  moreover have "last (butlast (v2 @ ''-dynamic-news'')) = CHR ''w''"
    by (simp add: butlast_append)
  ultimately show False using eq by simp
qed

lemma version_names_distinct:
  assumes "CACHE_VERSION cfg1 \<noteq> CACHE_VERSION cfg2"
  shows "STATIC_CACHE cfg1 \<notin> set (cacheAllowList cfg2)"
    and "NEWS_CACHE cfg1 \<notin> set (cacheAllowList cfg2)"
  using assms static_news_distinct [of "CACHE_VERSION cfg1" "CACHE_VERSION cfg2"]
    static_news_distinct [of "CACHE_VERSION cfg2" "CACHE_VERSION cfg1"]
  by (auto simp: cacheAllowList_def STATIC_CACHE_def NEWS_CACHE_def)

lemma keys_activate_handler:
  "set (caches_keys (activate_handler cfg cs)) = set (caches_keys cs) \<inter> set (cacheAllowList cfg)"
  unfolding activate_handler_filter caches_keys_def by force

lemma map_of_filter_key: "P k \<Longrightarrow> map_of (filter (\<lambda>(n, c). P n) cs) k = map_of cs k"
  by (induction cs) auto

lemma map_of_activate_handler:
  assumes "name \<in> set (cacheAllowList cfg)"
  shows "map_of (activate_handler cfg cs) name = map_of cs name"
  unfolding activate_handler_filter
  using assms by (rule map_of_filter_key [where P = "\<lambda>n. n \<in> set (cacheAllowList cfg)"])

text \<open>
  Claim C5. The activate handler keeps exactly the caches whose name is one of
  the two names of the current version, in their order and with their
  contents, and deletes every other cache. A cache named after another
  version tag is gone afterwards, and the two current caches are what they
  were before.
\<close>

theorem activate_keeps_exactly_allow_list:
  "activate_handler cfg cs =
     filter (\<lambda>(n, c). n = STATIC_CACHE cfg \<or> n = NEWS_CACHE cfg) cs \<and>
   (CACHE_VERSION old \<noteq> CACHE_VERSION cfg \<longrightarrow>
      STATIC_CACHE old \<notin> set (caches_keys (activate_handler cfg cs)) \<and>
      NEWS_CACHE old \<notin> set (caches_keys (activate_handler cfg cs))) \<and>
   map_of (activate_handler cfg cs) (STATIC_CACHE cfg) = map_of cs (STATIC_CACHE cfg) \<and>
   map_of (activate_handler cfg cs) (NEWS_CACHE cfg) = map_of cs (NEWS_CACHE cfg)"
proof (intro conjI impI)
  show "activate_handler cfg cs =
          filter (\<lambda>(n, c). n = STATIC_CACHE cfg \<or> n = NEWS_CACHE cfg) cs"
    unfolding activate_handler_filter
    by (rule filter_cong) (auto simp: cacheAllowList_def)
next
  assume "CACHE_VERSION old \<noteq> CACHE_VERSION cfg"
  then show "STATIC_CACHE old \<notin> set (caches_keys (activate_handler cfg cs))"
    by (simp add: keys_activate_handler version_names_distinct)
next
  assume "CACHE_VERSION old \<noteq> CACHE_VERSION cfg"
  then show "NEWS_CACHE old \<notin> set (caches_keys (activate_handler cfg cs))"
    by (simp add: keys_activate_handler version_names_distinct)
next
  show "map_of (activate_handler cfg cs) (STATIC_CACHE cfg) = map_of cs (STATIC_CACHE cfg)"
    by (rule map_of_activate_handler) (simp add: cacheAllowList_def)
next
  show "map_of (activate_handler cfg cs) (NEWS_CACHE cfg) = map_of cs (NEWS_CACHE cfg)"
    by (rule map_of_activate_handler) (simp add: cacheAllowList_def)
qed

lemma previous_version_differs: "CACHE_VERSION previous_version \<noteq> CACHE_VERSION deployed"
  by (simp add: previous_version_def deployed_def)

lemma upgraded_has_old_stores:
  "STATIC_CACHE previous_version \<in> set (caches_keys upgraded) \<and>
   NEWS_CACHE previous_version \<in> set (caches_keys upgraded)"
  by (simp add: upgraded_def caches_keys_def STATIC_CACHE_def NEWS_CACHE_def previous_version_def)

lemma upgraded_has_current_stores:
  "map_of upgraded (STATIC_CACHE deployed) = Some [(''https://example.com/index.html'', shell_page)] \<and>
   map_of upgraded (NEWS_CACHE deployed) = Some [(''https://example.com/api/news'', news_item)]"
  by (simp add: upgraded_def STATIC_CACHE_def NEWS_CACHE_def deployed_def)

text \<open>
  After an upgrade from version 0.9.0 the two old caches are deleted and the
  two caches of version 1.0.0 keep their entries.
\<close>

theorem activate_keeps_exactly_allow_list_witness:
  "CACHE_VERSION previous_version \<noteq> CACHE_VERSION deployed \<and>
   STATIC_CACHE previous_version \<in> set (caches_keys upgraded) \<and>
   NEWS_CACHE previous_version \<in> set (caches_keys upgraded) \<and>
   STATIC_CACHE previous_version \<notin> set (caches_keys (activate_handler deployed upgraded)) \<and>
   NEWS_CACHE previous_version \<notin> set (caches_keys (activate_handler deployed upgraded)) \<and>
   map_of (activate_handler deployed upgraded) (STATIC_CACHE deployed) =
     Some [(''https://example.com/index.html'', shell_page)] \<and>
   map_of (activate_handler deployed upgraded) (NEWS_CACHE deployed) =
     Some [(''https://example.com/api/news'', news_item)]"
  using activate_keeps_exactly_allow_list [of deployed upgraded previous_version, THEN conjunct2]
    previous_version_differs upgraded_has_old_stores upgraded_has_current_stores
  by simp

subsection \<open>Installation\<close>

text \<open>
  The promise of the install handler always resolves.
\<close>

lemma install_handler_resolves: "fst (install_handler cfg base net cs) = Inr ()"
  by (simp add: install_handler_def Let_def split: prod.split sum.split)

lemma those_None_iff: "those xs = None \<longleftrightarrow> None \<in> set xs"
  by (induction xs) (auto split: option.splits)

lemma cache_addAll_rejects:
  assumes "\<exists>req \<in> set requests. fetch_for_add net req = None"
  shows "cache_addAll net name requests cs = (Inl TypeError, cs)"
proof -
  from assms have "None \<in> set (map (fetch_for_add net) requests)"
    by force
  then have "those (map (fetch_for_add net) requests) = None"
    by (simp only: those_None_iff)
  then show ?thesis
    by (simp add: cache_addAll_def)
qed

text \<open>
  When the fetch of one asset fails, \<^verbatim>\<open>addAll\<close> stores nothing: the install
  handler leaves the storage as \<^verbatim>\<open>caches.open\<close> made it.
\<close>

lemma install_handler_all_or_nothing:
  assumes "\<exists>asset \<in> set (ASSETS_TO_CACHE cfg). fetch_for_add net (asset_request base asset) = None"
  shows "install_handler cfg base net cs = (Inr (), caches_open (STATIC_CACHE cfg) cs)"
proof -
  from assms
  have "\<exists>req \<in> set (map (asset_request base) (ASSETS_TO_CACHE cfg)). fetch_for_add net req = None"
    by simp
  then show ?thesis
    by (simp add: install_handler_def cache_addAll_rejects)
qed

lemma cdn_fetch_fails:
  "fetch_for_add cdn_unreachable (asset_request ''https://example.com'' ''https://cdn.tailwindcss.com'') = None"
  by code_simp

lemma shell_fetch_succeeds:
  "fetch_for_add cdn_unreachable (asset_request ''https://example.com'' ''/index.html'') = Some shell_page"
  by code_simp

text \<open>
  Claim C4, evaluated on the asset list of the source with the Tailwind CDN
  unreachable and an empty storage. The fetch of \<^verbatim>\<open>/index.html\<close> succeeds
  and the install promise resolves, but \<^verbatim>\<open>addAll\<close> has rejected as a
  whole: the static cache is created empty and the shell document is not in it.
\<close>

theorem install_with_unreachable_cdn_stores_nothing:
  "fetch_for_add cdn_unreachable (asset_request ''https://example.com'' ''/index.html'') = Some shell_page \<and>
   install_handler deployed ''https://example.com'' cdn_unreachable [] =
     (Inr (), [(''news-pwa-v1.0.0-static-assets'', [])]) \<and>
   caches_match (snd (install_handler deployed ''https://example.com'' cdn_unreachable [])) shell_get = None"
proof -
  have "\<exists>asset \<in> set (ASSETS_TO_CACHE deployed).
          fetch_for_add cdn_unreachable (asset_request ''https://example.com'' asset) = None"
    using cdn_fetch_fails by (simp add: deployed_def)
  then have "install_handler deployed ''https://example.com'' cdn_unreachable [] =
               (Inr (), caches_open (STATIC_CACHE deployed) [])"
    by (rule install_handler_all_or_nothing)
  then have "install_handler deployed ''https://example.com'' cdn_unreachable [] =
               (Inr (), [(''news-pwa-v1.0.0-static-assets'', [])])"
    by (simp add: caches_open_def STATIC_CACHE_def deployed_def)
  then show ?thesis
    by (simp add: shell_fetch_succeeds cache_match_def shell_get_def)
qed

end
